theory Spec2Isabelle
  imports Complex_Main "HOL-Library.Sublist"
begin

section \<open>Strings\<close>

text \<open>
  TypeScript strings are modelled as \<open>string\<close> (lists of \<open>char\<close>).  The three string
  operations the board code uses, \<^verbatim>\<open>===\<close>, \<^verbatim>\<open>String.prototype.endsWith\<close> and
  \<^verbatim>\<open>String.prototype.includes\<close>, only compare code units for equality, so the width of
  a code unit plays no role for them.
\<close>

text \<open>
  \<^verbatim>\<open>s.startsWith(v)\<close>: the first \<open>length v\<close> code units of \<open>s\<close> are \<open>v\<close>.
\<close>

definition startsWith :: "string \<Rightarrow> string \<Rightarrow> bool" where
  "startsWith s v = (length v \<le> length s \<and> take (length v) s = v)"

text \<open>
  \<^verbatim>\<open>s.endsWith(v)\<close>: with \<open>start = length s - length v\<close>, the result is false when
  \<open>start < 0\<close>, and otherwise says whether the code units of \<open>s\<close> from \<open>start\<close> on are \<open>v\<close>.
\<close>

definition endsWith :: "string \<Rightarrow> string \<Rightarrow> bool" where
  "endsWith s v = (length v \<le> length s \<and> drop (length s - length v) s = v)"

text \<open>
  \<^verbatim>\<open>s.includes(v)\<close>: \<open>v\<close> occurs in \<open>s\<close> at some position, tried from the left
  (the name \<open>includes\<close> is taken in Isabelle).
\<close>

fun includesStr :: "string \<Rightarrow> string \<Rightarrow> bool" where
  "includesStr [] v = (v = [])"
| "includesStr (c # s) v = (startsWith (c # s) v \<or> includesStr s v)"

section \<open>BrushMatcher: \<^verbatim>\<open>src/utils/brushMatchers.ts\<close>\<close>

text \<open>
  \<^verbatim>\<open>ActiveBrush\<close> has the two fields \<^verbatim>\<open>type\<close> and \<^verbatim>\<open>value\<close>; both names are taken in
  Isabelle, so the record calls them \<open>brushType\<close> and \<open>brushValue\<close>.  The type tag is kept a
  string, because \<^verbatim>\<open>matchesBrush\<close> has a \<^verbatim>\<open>default\<close> branch for tags outside the four
  it knows.
\<close>

record ActiveBrush =
  brushType :: string
  brushValue :: string

text \<open>
  \<^verbatim>\<open>BrushableCard\<close>: the attributes of one card that \<^verbatim>\<open>matchesBrush\<close> reads.  The model
  identifier may be absent.
\<close>

record BrushableCard =
  model :: "string option"
  variant :: string
  isError :: bool
  isCancelled :: bool
  isCommit :: bool
  editedFiles :: "string list"

text \<open>
  \<^verbatim>\<open>!!card.model && card.model.includes(v)\<close>: an absent model and the empty model string
  are both falsy.
\<close>

definition modelMatches :: "string option \<Rightarrow> string \<Rightarrow> bool" where
  "modelMatches m v = (case m of None \<Rightarrow> False | Some s \<Rightarrow> s \<noteq> [] \<and> includesStr s v)"

definition statusMatches :: "string \<Rightarrow> BrushableCard \<Rightarrow> bool" where
  "statusMatches v bcard =
     (if v = ''error'' then isError bcard
      else if v = ''cancelled'' then isCancelled bcard
      else if v = ''commit'' then isCommit bcard
      else False)"

definition fileMatches :: "string \<Rightarrow> BrushableCard \<Rightarrow> bool" where
  "fileMatches v bcard = list_ex (\<lambda>f. f = v \<or> endsWith f v) (editedFiles bcard)"

definition matchesBrush :: "ActiveBrush option \<Rightarrow> BrushableCard \<Rightarrow> bool" where
  "matchesBrush brush bcard =
     (case brush of
        None \<Rightarrow> True
      | Some b \<Rightarrow>
          if brushType b = ''model'' then modelMatches (model bcard) (brushValue b)
          else if brushType b = ''tool'' then variant bcard = brushValue b
          else if brushType b = ''status'' then statusMatches (brushValue b) bcard
          else if brushType b = ''file'' then fileMatches (brushValue b) bcard
          else False)"

subsection \<open>The file criterion in the words of the specification\<close>

text \<open>
  The specification lets a file brush match a file that equals the value or ends with it
  \<^emph>\<open>as a path suffix\<close>, for matching by basename.  \<open>spec_pathSuffix f v\<close> says that \<open>f\<close>
  ends with \<open>v\<close> and that \<open>v\<close> begins at a boundary of path components: \<open>v\<close> is all of
  \<open>f\<close>, or the code unit before it is the separator \<open>/\<close>, or \<open>v\<close> itself begins with the
  separator.  \<open>spec_fileMatches\<close> is the file criterion read that way.
\<close>

definition spec_pathSuffix :: "string \<Rightarrow> string \<Rightarrow> bool" where
  "spec_pathSuffix f v =
     (endsWith f v
      \<and> (length f = length v
         \<or> take 1 (drop (length f - length v - 1) f) = ''/''
         \<or> take 1 v = ''/''))"

definition spec_fileMatches :: "string \<Rightarrow> BrushableCard \<Rightarrow> bool" where
  "spec_fileMatches v bcard = list_ex (\<lambda>f. f = v \<or> spec_pathSuffix f v) (editedFiles bcard)"

section \<open>LabelPlacer: \<^verbatim>\<open>selectLabelIndices\<close> of the daily bar chart\<close>

text \<open>
  The layout constants of the chart.  All of them are whole numbers of pixels.
\<close>

definition BAR_WIDTH :: nat where
  "BAR_WIDTH = 14"

definition BAR_GAP :: nat where
  "BAR_GAP = 3"

definition SLOT_WIDTH :: nat where
  "SLOT_WIDTH = BAR_WIDTH + BAR_GAP"

definition MIN_LABEL_GAP_PX :: nat where
  "MIN_LABEL_GAP_PX = 44"

text \<open>
  \<^verbatim>\<open>const minSlots = Math.ceil(MIN_LABEL_GAP_PX / SLOT_WIDTH)\<close>, a constant of the function
  body, computed over the rationals.
\<close>

definition minSlots :: nat where
  "minSlots = nat \<lceil>(of_nat MIN_LABEL_GAP_PX :: rat) / of_nat SLOT_WIDTH\<rceil>"

text \<open>
  \<^verbatim>\<open>Math.max(2, Math.floor(minSlots * 0.55))\<close>, the threshold of the final label, with
  \<open>0.55\<close> read as the rational \<open>55 / 100\<close>.
\<close>

definition lastThreshold :: nat where
  "lastThreshold = max 2 (nat \<lfloor>(of_nat minSlots :: rat) * (55 / 100)\<rfloor>)"

text \<open>
  \<^verbatim>\<open>indices[indices.length - 1] ?? 0\<close>: the last element, and \<open>0\<close> for an empty array.
\<close>

definition lastOr0 :: "nat list \<Rightarrow> nat" where
  "lastOr0 indices = (if indices = [] then 0 else last indices)"

text \<open>
  The loop \<^verbatim>\<open>for (let i = 1; i < count - 1; i++)\<close>, with the array \<open>indices\<close> as its state.
  The differences are taken in \<open>int\<close>, as JavaScript subtraction does not truncate at zero.
  The loop is only reached with \<open>count \<ge> 2\<close>, so \<open>count - 1\<close> is the same in \<open>nat\<close>.
\<close>

function scanLoop :: "nat \<Rightarrow> nat \<Rightarrow> nat list \<Rightarrow> nat list" where
  "scanLoop count i indices =
     (if i < count - 1
      then scanLoop count (i + 1)
             (if int i - int (lastOr0 indices) \<ge> int minSlots then indices @ [i] else indices)
      else indices)"
  by pat_completeness auto
termination
  by (relation "measure (\<lambda>(count, i, indices). count - 1 - i)") auto

declare scanLoop.simps [simp del]

text \<open>
  \<^verbatim>\<open>selectLabelIndices(count)\<close>.  Its only caller passes \<^verbatim>\<open>dailyBars.length\<close>, so the
  argument is a natural number.
\<close>

definition selectLabelIndices :: "nat \<Rightarrow> nat list" where
  "selectLabelIndices count =
     (if count = 0 then []
      else if count = 1 then [0]
      else
        let indices = scanLoop count 1 [0];
            lst = lastOr0 indices;
            lastIdx = count - 1
        in if lastIdx > lst \<and> int lastIdx - int lst \<ge> int lastThreshold
           then indices @ [lastIdx]
           else indices)"

subsection \<open>The algorithm in the words of the specification\<close>

text \<open>
  The specification describes \<open>selectLabelIndices slotCount slotPixelWidth minLabelGapPx\<close>
  as a greedy walk: index \<open>0\<close> is included; each index of \<open>1..slotCount-2\<close>, in order, is
  included iff its distance from the last included index is at least
  \<open>ceil(minLabelGapPx / slotPixelWidth)\<close>; the final index is added iff its distance from
  the last included index is at least \<open>max(2, floor(minSlots * 0.55))\<close>.
  \<open>greedyWalk m lastIncluded is\<close> walks the indices \<open>is\<close> and returns those it includes.
\<close>

fun greedyWalk :: "nat \<Rightarrow> nat \<Rightarrow> nat list \<Rightarrow> nat list" where
  "greedyWalk m lastIncluded [] = []"
| "greedyWalk m lastIncluded (i # is) =
     (if int i - int lastIncluded \<ge> int m
      then i # greedyWalk m i is
      else greedyWalk m lastIncluded is)"

definition spec_selectLabelIndices :: "nat \<Rightarrow> nat \<Rightarrow> nat \<Rightarrow> nat list" where
  "spec_selectLabelIndices slotCount slotPixelWidth minLabelGapPx =
     (if slotCount = 0 then []
      else if slotCount = 1 then [0]
      else
        let m = nat \<lceil>(of_nat minLabelGapPx :: rat) / of_nat slotPixelWidth\<rceil>;
            scan = 0 # greedyWalk m 0 [1..<slotCount - 1];
            final = slotCount - 1
        in if int final - int (last scan) \<ge> int (max 2 (nat \<lfloor>(of_nat m :: rat) * (55 / 100)\<rfloor>))
           then scan @ [final]
           else scan)"

section \<open>DensityAggregator: bar intensity in \<^verbatim>\<open>ContributionGrid\<close>\<close>

text \<open>
  \<^verbatim>\<open>DailyBar\<close>: one day of the chart with its number of sessions, a count.
\<close>

record DailyBar =
  date :: string
  sessionCount :: nat

text \<open>
  The loop of the \<^verbatim>\<open>maxCount\<close> memo:
  \<^verbatim>\<open>let max = 0; for (const bar of dailyBars) if (bar.sessionCount > max) max = bar.sessionCount\<close>.
\<close>

fun maxCountLoop :: "DailyBar list \<Rightarrow> nat \<Rightarrow> nat" where
  "maxCountLoop [] mx = mx"
| "maxCountLoop (bar # bars) mx =
     maxCountLoop bars (if sessionCount bar > mx then sessionCount bar else mx)"

definition maxCount :: "DailyBar list \<Rightarrow> nat" where
  "maxCount dailyBars = maxCountLoop dailyBars 0"

text \<open>
  \<^verbatim>\<open>const intensity = maxCount > 0 ? bar.sessionCount / maxCount : 0\<close>, computed for each
  bar of \<open>dailyBars\<close>.  The quotient is taken in the rationals.
\<close>

definition intensity :: "DailyBar list \<Rightarrow> DailyBar \<Rightarrow> rat" where
  "intensity dailyBars bar =
     (if maxCount dailyBars > 0
      then of_nat (sessionCount bar) / of_nat (maxCount dailyBars)
      else 0)"

definition intensities :: "DailyBar list \<Rightarrow> rat list" where
  "intensities dailyBars = map (intensity dailyBars) dailyBars"

section \<open>InteractionRenderer: \<^verbatim>\<open>ExpandedCard\<close> and \<^verbatim>\<open>InteractionCard\<close>\<close>

subsection \<open>Placement of the expanded popover\<close>

text \<open>
  The fields of \<^verbatim>\<open>DOMRect\<close> that the placement reads (\<^verbatim>\<open>left\<close>, \<^verbatim>\<open>top\<close>, \<^verbatim>\<open>right\<close>),
  and the \<^verbatim>\<open>style\<close> the popover gets.  Pixel coordinates are rationals; the rounding of
  double arithmetic is not modelled.
\<close>

record DOMRect =
  rectLeft :: rat
  rectTop :: rat
  rectRight :: rat

record PopoverStyle =
  styleLeft :: rat
  styleTop :: rat
  styleMaxHeight :: rat

definition cardWidth :: rat where
  "cardWidth = 480"

definition gap :: rat where
  "gap = 12"

text \<open>
  The position computed at the head of \<^verbatim>\<open>ExpandedCard\<close>.  Without a trigger rectangle the
  component renders nothing.
\<close>

definition ExpandedCard :: "DOMRect option \<Rightarrow> rat \<Rightarrow> rat \<Rightarrow> PopoverStyle option" where
  "ExpandedCard triggerRect windowWidth windowHeight =
     (case triggerRect of
        None \<Rightarrow> None
      | Some r \<Rightarrow>
          let left0 = rectRight r + gap;
              top0 = rectTop r;
              left1 = (if left0 + cardWidth > windowWidth - 20
                       then rectLeft r - cardWidth - gap else left0);
              maxHeight = min 600 (windowHeight - 40);
              top1 = (if top0 + maxHeight > windowHeight - 20
                      then max 20 (windowHeight - maxHeight - 20) else top0);
              top2 = (if top1 < 20 then 20 else top1)
          in Some \<lparr>styleLeft = left1, styleTop = top2, styleMaxHeight = maxHeight\<rparr>)"

subsection \<open>The card\<close>

text \<open>
  The parts of \<^verbatim>\<open>ClaudeMessage\<close> that decide what the card shows: the role (or, without
  one, the type), the tool use and the token usage.  Of a tool use the card reads the name
  and the input, the latter only through \<^verbatim>\<open>JSON.stringify(input)\<close> and
  \<^verbatim>\<open>JSON.stringify(input, null, 2)\<close>; the record holds these two texts.
\<close>

record ToolUse =
  toolName :: string
  toolInputJson :: string
  toolInputJsonPretty :: string

record Usage =
  input_tokens :: nat
  output_tokens :: nat

record ClaudeMessage =
  role :: "string option"
  messageType :: string
  toolUse :: "ToolUse option"
  usage :: "Usage option"

text \<open>
  \<^verbatim>\<open>String.prototype.trim\<close> removes white space and line terminators from both ends.
  A \<open>char\<close> is a code unit below 256; there the white space of ECMAScript is TAB, LF, VT,
  FF, CR, SP and NBSP.
\<close>

definition isWhiteSpace :: "char \<Rightarrow> bool" where
  "isWhiteSpace c = ((of_char c :: nat) \<in> {9, 10, 11, 12, 13, 32, 160})"

definition trim :: "string \<Rightarrow> string" where
  "trim s = rev (dropWhile isWhiteSpace (rev (dropWhile isWhiteSpace s)))"

text \<open>
  What a card shows.  Colours, icons, badges and time stamps are left out; kept are the
  zoom level's layout, whether the card is dimmed (\<^verbatim>\<open>!isActive\<close>), its height or texts, and
  the popover when the card is expanded.
\<close>

datatype CardView =
  PixelView bool rat
| SkimView bool string string "PopoverStyle option"
| DetailView bool string string "PopoverStyle option"

record InteractionCardProps =
  message :: ClaudeMessage
  zoomLevel :: nat
  isActive :: bool
  isExpanded :: bool

text \<open>
  \<^verbatim>\<open>InteractionCard\<close>.  \<open>extract\<close> stands for \<^verbatim>\<open>extractClaudeMessageContent\<close> of
  \<^verbatim>\<open>utils/messageUtils\<close>; \<open>triggerRect\<close> is the component's state of that name and the
  window size is what \<^verbatim>\<open>window.innerWidth\<close> and \<^verbatim>\<open>window.innerHeight\<close> give.  The result
  \<open>None\<close> is the \<^verbatim>\<open>return null\<close> of the source: nothing is rendered.
\<close>

definition InteractionCard ::
  "(ClaudeMessage \<Rightarrow> string option) \<Rightarrow> InteractionCardProps \<Rightarrow> DOMRect option \<Rightarrow> rat \<Rightarrow> rat
     \<Rightarrow> CardView option" where
  "InteractionCard extract props triggerRect windowWidth windowHeight =
     (let msg = message props;
          content = (case extract msg of None \<Rightarrow> [] | Some c \<Rightarrow> c);
          isTool = (toolUse msg \<noteq> None);
          toolInput = (case toolUse msg of None \<Rightarrow> [] | Some t \<Rightarrow> toolInputJson t);
          toolInputPretty = (case toolUse msg of None \<Rightarrow> [] | Some t \<Rightarrow> toolInputJsonPretty t)
      in if trim content = [] \<and> \<not> isTool then None
         else
           let roleText = (case role msg of
                             None \<Rightarrow> messageType msg
                           | Some r \<Rightarrow> if r = [] then messageType msg else r);
               label = (case toolUse msg of None \<Rightarrow> roleText | Some t \<Rightarrow> toolName t);
               popover = (if isExpanded props
                          then ExpandedCard triggerRect windowWidth windowHeight else None)
           in if zoomLevel props = 0 then
                let totalTokens =
                      (case usage msg of
                         None \<Rightarrow> 0
                       | Some u \<Rightarrow> input_tokens u + output_tokens u);
                    height = min (max ((of_nat totalTokens :: rat) / 50) 4) 20
                in Some (PixelView (\<not> isActive props) height)
              else if zoomLevel props = 1 then
                Some (SkimView (\<not> isActive props) label
                        (if isTool then toolInput else content) popover)
              else
                Some (DetailView (\<not> isActive props) label
                        (if content \<noteq> [] then content
                         else if isTool then toolInputPretty else ''No content'') popover))"

section \<open>NavigationController\<close>

text \<open>
  Modelled from the spec: the navigation store (the navigation and board slices that hold
  the deep-link target and the saved board view) is not among the sources; the records and
  transitions below follow sections 3 and 4.5 of the specification.

  A board view is the scroll offset, the zoom level and the set of pinned sessions.
\<close>

record BoardView =
  scrollOffset :: int
  zoom :: nat
  pinnedSessions :: "string set"

text \<open>
  Modelled from the spec: the three states of the navigation state machine, which is not
  among the sources.
\<close>

datatype NavPhase = Idle | PendingJump | Returning

text \<open>
  Modelled from the spec: the state of the navigation controller, which is not among the
  sources.  \<open>boardView\<close> is the view of the mounted board and \<open>None\<close> while the detail view
  is shown; \<open>highlighted\<close> is the event the detail view scrolled to and flashed.
\<close>

record NavigationState =
  phase :: NavPhase
  targetEventId :: "string option"
  savedBoardView :: "BoardView option"
  boardView :: "BoardView option"
  highlighted :: "string option"

text \<open>
  Modelled from the spec: \<open>Idle \<rightarrow> PendingJump\<close>, missing from the sources.  Activating a
  link on a card captures the current board view as \<open>savedBoardView\<close>, sets the target and
  leaves the board.
\<close>

definition activateLink :: "string \<Rightarrow> NavigationState \<Rightarrow> NavigationState option" where
  "activateLink eventId s =
     (case (phase s, boardView s) of
        (Idle, Some v) \<Rightarrow>
          Some (s\<lparr>phase := PendingJump, targetEventId := Some eventId,
                  savedBoardView := Some v, boardView := None\<rparr>)
      | _ \<Rightarrow> None)"

text \<open>
  Modelled from the spec: \<open>PendingJump \<rightarrow> Idle\<close>, missing from the sources.  The mounted
  detail view, showing the events \<open>loaded\<close>, scrolls to the target and highlights it when
  it is present, does nothing when it is not, and clears the target either way.
\<close>

definition detailMounted :: "string list \<Rightarrow> NavigationState \<Rightarrow> NavigationState option" where
  "detailMounted loaded s =
     (case (phase s, targetEventId s) of
        (PendingJump, Some t) \<Rightarrow>
          Some (s\<lparr>phase := Idle, targetEventId := None,
                  highlighted := (if t \<in> set loaded then Some t else None)\<rparr>)
      | _ \<Rightarrow> None)"

text \<open>
  Modelled from the spec: \<open>Idle \<rightarrow> Returning\<close>, missing from the sources.  The explicit back
  action re-mounts the board, which comes up with the default view \<open>dflt\<close>.
\<close>

definition backAction :: "BoardView \<Rightarrow> NavigationState \<Rightarrow> NavigationState option" where
  "backAction dflt s =
     (case phase s of
        Idle \<Rightarrow> Some (s\<lparr>phase := Returning, boardView := Some dflt, highlighted := None\<rparr>)
      | _ \<Rightarrow> None)"

text \<open>
  Modelled from the spec: \<open>Returning \<rightarrow> Idle\<close>, missing from the sources.  The saved view,
  when there is one, is applied to the board, and the snapshot is cleared.
\<close>

definition restoreBoard :: "NavigationState \<Rightarrow> NavigationState option" where
  "restoreBoard s =
     (case phase s of
        Returning \<Rightarrow>
          Some (s\<lparr>phase := Idle,
                  boardView := (case savedBoardView s of None \<Rightarrow> boardView s | Some v \<Rightarrow> Some v),
                  savedBoardView := None\<rparr>)
      | _ \<Rightarrow> None)"

text \<open>
  Modelled from the spec: the round trip of the testable properties, missing from the
  sources: jump to \<open>eventId\<close>, let the detail view mount, go back, restore.
\<close>

definition jumpAndReturn ::
  "string \<Rightarrow> string list \<Rightarrow> BoardView \<Rightarrow> NavigationState \<Rightarrow> NavigationState option" where
  "jumpAndReturn eventId loaded dflt s =
     Option.bind (Option.bind (Option.bind (activateLink eventId s) (detailMounted loaded))
       (backAction dflt)) restoreBoard"

section \<open>Properties of the string operations\<close>

lemma endsWith_suffix: "endsWith s v = suffix v s"
proof
  assume "endsWith s v"
  then have "s = take (length s - length v) s @ v"
    by (metis append_take_drop_id endsWith_def)
  then show "suffix v s"
    by (rule suffixI)
next
  assume "suffix v s"
  then obtain p where "s = p @ v"
    by (auto simp: suffix_def)
  then show "endsWith s v"
    by (simp add: endsWith_def)
qed

lemma endsWith_Nil: "endsWith s []"
  by (simp add: endsWith_def)

lemma spec_pathSuffix_endsWith: "spec_pathSuffix f v \<Longrightarrow> endsWith f v"
  by (simp add: spec_pathSuffix_def)

lemma spec_pathSuffix_examples:
  "spec_pathSuffix ''/x/y/a.md'' ''a.md'' \<and> spec_pathSuffix ''/x/y/a.md'' ''y/a.md''
   \<and> spec_pathSuffix ''/x/y/a.md'' ''/y/a.md'' \<and> spec_pathSuffix ''a.md'' ''a.md''
   \<and> \<not> spec_pathSuffix ''a.mdx'' ''a.md''"
  by (simp add: spec_pathSuffix_def endsWith_def)

text \<open>
  Whatever matches by path suffix also matches in the code; the converse is what fails.
\<close>

lemma spec_fileMatches_imp: "spec_fileMatches v bcard \<Longrightarrow> fileMatches v bcard"
  unfolding spec_fileMatches_def fileMatches_def list_ex_iff
  by (blast intro: spec_pathSuffix_endsWith)

section \<open>Properties of \<^verbatim>\<open>matchesBrush\<close>\<close>

text \<open>
  C8.  With no active brush, \<open>matchesBrush\<close> answers true for every card: the absent brush
  is the identity filter.
\<close>

theorem matchesBrush_null: "matchesBrush None bcard = True"
  by (simp add: matchesBrush_def)

text \<open>
  C4, as the specification states it, fails.  The value \<open>a.md\<close> matches a card whose only
  edited file is \<open>/x/ya.md\<close>, although that file neither is \<open>a.md\<close> nor ends with it as a
  path suffix: its basename is \<open>ya.md\<close>.  \<^verbatim>\<open>f.endsWith(brush.value)\<close> compares code units
  and looks at no separator.
\<close>

theorem matchesBrush_file_path_counterexample:
  "matchesBrush (Some \<lparr>brushType = ''file'', brushValue = ''a.md''\<rparr>)
     \<lparr>model = None, variant = ''code'', isError = False, isCancelled = False,
      isCommit = False, editedFiles = [''/x/ya.md'']\<rparr>
   \<and> ''/x/ya.md'' \<noteq> ''a.md''
   \<and> \<not> spec_pathSuffix ''/x/ya.md'' ''a.md''
   \<and> \<not> spec_fileMatches ''a.md''
         \<lparr>model = None, variant = ''code'', isError = False, isCancelled = False,
          isCommit = False, editedFiles = [''/x/ya.md'']\<rparr>"
  by (simp add: matchesBrush_def fileMatches_def spec_fileMatches_def spec_pathSuffix_def
      endsWith_def)

text \<open>
  C4, amended.  A brush of type \<open>file\<close> with value \<open>v\<close> matches a card exactly when one of
  the card's edited files is \<open>v\<close> itself or ends with \<open>v\<close> as a string, that is, is
  \<open>p @ v\<close> for some \<open>p\<close>, whether or not \<open>v\<close> begins at a path separator.  In particular
  the value \<open>a.md\<close> matches every card whose files contain \<open>a.md\<close> or \<open>/x/y/a.md\<close>, and
  does not match a card whose files are all \<open>a.mdx\<close>.
\<close>

theorem matchesBrush_file:
  "(matchesBrush (Some \<lparr>brushType = ''file'', brushValue = v\<rparr>) bcard
      = (\<exists>f \<in> set (editedFiles bcard). f = v \<or> (\<exists>p. f = p @ v)))
   \<and> matchesBrush (Some \<lparr>brushType = ''file'', brushValue = ''a.md''\<rparr>)
         (bcard\<lparr>editedFiles := xs @ ''a.md'' # ys\<rparr>)
   \<and> matchesBrush (Some \<lparr>brushType = ''file'', brushValue = ''a.md''\<rparr>)
         (bcard\<lparr>editedFiles := xs @ ''/x/y/a.md'' # ys\<rparr>)
   \<and> \<not> matchesBrush (Some \<lparr>brushType = ''file'', brushValue = ''a.md''\<rparr>)
         (bcard\<lparr>editedFiles := replicate n ''a.mdx''\<rparr>)"
proof -
  have 1: "matchesBrush (Some \<lparr>brushType = ''file'', brushValue = v\<rparr>) c
      = (\<exists>f \<in> set (editedFiles c). f = v \<or> (\<exists>p. f = p @ v))" for c v
    by (simp add: matchesBrush_def fileMatches_def list_ex_iff endsWith_suffix suffix_def)
  have 2: "''/x/y/a.md'' = ''/x/y/'' @ ''a.md''"
    by simp
  have 3: "''a.mdx'' \<noteq> p @ ''a.md''" for p
  proof
    assume "''a.mdx'' = p @ ''a.md''"
    then have "last ''a.mdx'' = last (p @ ''a.md'')"
      by (rule arg_cong)
    then show False
      by simp
  qed
  show ?thesis
    unfolding 1 using 2 3 by auto
qed

theorem matchesBrush_file_witness:
  "matchesBrush (Some \<lparr>brushType = ''file'', brushValue = ''b.ts''\<rparr>)
     \<lparr>model = None, variant = ''code'', isError = False, isCancelled = False,
      isCommit = False, editedFiles = [''/src/a.ts'', ''/src/b.ts'']\<rparr>"
  using matchesBrush_file [of "''b.ts''"
      "\<lparr>model = None, variant = ''code'', isError = False, isCancelled = False,
        isCommit = False, editedFiles = [''/src/a.ts'', ''/src/b.ts'']\<rparr>"]
  by simp

text \<open>
  C5.  A brush of type \<open>status\<close> answers with the card's \<open>isError\<close>, \<open>isCancelled\<close> or
  \<open>isCommit\<close> flag for the values \<open>error\<close>, \<open>cancelled\<close> and \<open>commit\<close>, and with false for
  every other value.  A brush whose type is none of \<open>model\<close>, \<open>tool\<close>, \<open>status\<close>, \<open>file\<close>
  matches no card.
\<close>

theorem matchesBrush_status:
  "matchesBrush (Some \<lparr>brushType = ''status'', brushValue = ''error''\<rparr>) bcard = isError bcard
   \<and> matchesBrush (Some \<lparr>brushType = ''status'', brushValue = ''cancelled''\<rparr>) bcard
       = isCancelled bcard
   \<and> matchesBrush (Some \<lparr>brushType = ''status'', brushValue = ''commit''\<rparr>) bcard
       = isCommit bcard
   \<and> (v \<notin> {''error'', ''cancelled'', ''commit''} \<longrightarrow>
        matchesBrush (Some \<lparr>brushType = ''status'', brushValue = v\<rparr>) bcard = False)
   \<and> (brushType b \<notin> {''model'', ''tool'', ''status'', ''file''} \<longrightarrow>
        matchesBrush (Some b) bcard = False)"
  by (simp add: matchesBrush_def statusMatches_def)

theorem matchesBrush_status_witness:
  "''ok'' \<notin> {''error'', ''cancelled'', ''commit''}
   \<and> ''role'' \<notin> {''model'', ''tool'', ''status'', ''file''}
   \<and> matchesBrush (Some \<lparr>brushType = ''status'', brushValue = ''ok''\<rparr>)
        \<lparr>model = None, variant = ''code'', isError = True, isCancelled = True,
         isCommit = True, editedFiles = []\<rparr> = False
   \<and> matchesBrush (Some \<lparr>brushType = ''role'', brushValue = ''user''\<rparr>)
        \<lparr>model = None, variant = ''code'', isError = True, isCancelled = True,
         isCommit = True, editedFiles = []\<rparr> = False"
  using matchesBrush_status [of
      "\<lparr>model = None, variant = ''code'', isError = True, isCancelled = True,
        isCommit = True, editedFiles = []\<rparr>"
      "''ok''" "\<lparr>brushType = ''role'', brushValue = ''user''\<rparr>"]
  by simp

text \<open>
  C10.  A brush of type \<open>file\<close> whose value is the empty string matches a card exactly when
  the card has at least one edited file, since every string ends with the empty string.
\<close>

theorem matchesBrush_file_empty:
  "matchesBrush (Some \<lparr>brushType = ''file'', brushValue = ''''\<rparr>) bcard
     = (editedFiles bcard \<noteq> [])"
  by (cases "editedFiles bcard")
     (simp_all add: matchesBrush_def fileMatches_def endsWith_Nil)

section \<open>Properties of the bar intensities\<close>

lemma maxCountLoop_ge_init: "mx \<le> maxCountLoop bars mx"
proof (induction bars arbitrary: mx)
  case Nil
  show ?case by simp
next
  case (Cons bar bars)
  have "mx \<le> (if sessionCount bar > mx then sessionCount bar else mx)"
    by simp
  also have "\<dots> \<le> maxCountLoop bars (if sessionCount bar > mx then sessionCount bar else mx)"
    by (rule Cons.IH)
  finally show ?case by simp
qed

lemma maxCountLoop_ge_elem: "bar \<in> set bars \<Longrightarrow> sessionCount bar \<le> maxCountLoop bars mx"
proof (induction bars arbitrary: mx)
  case Nil
  then show ?case by simp
next
  case (Cons b bars)
  show ?case
  proof (cases "bar = b")
    case True
    have "sessionCount b \<le> (if sessionCount b > mx then sessionCount b else mx)"
      by simp
    also have "\<dots> \<le> maxCountLoop bars (if sessionCount b > mx then sessionCount b else mx)"
      by (rule maxCountLoop_ge_init)
    finally show ?thesis using True by simp
  next
    case False
    with Cons.prems have "bar \<in> set bars" by simp
    then show ?thesis by (simp add: Cons.IH)
  qed
qed

lemma maxCountLoop_attained:
  "maxCountLoop bars mx = mx \<or> maxCountLoop bars mx \<in> sessionCount ` set bars"
proof (induction bars arbitrary: mx)
  case Nil
  show ?case by simp
next
  case (Cons b bars)
  from Cons.IH [of "if sessionCount b > mx then sessionCount b else mx"]
  show ?case by (auto split: if_splits)
qed

lemma maxCount_upper: "bar \<in> set dailyBars \<Longrightarrow> sessionCount bar \<le> maxCount dailyBars"
  unfolding maxCount_def by (rule maxCountLoop_ge_elem)

lemma maxCount_attained:
  assumes "dailyBars \<noteq> []"
  shows "maxCount dailyBars \<in> sessionCount ` set dailyBars"
proof (cases "maxCount dailyBars = 0")
  case True
  from assms obtain bar where bar: "bar \<in> set dailyBars"
    by (cases dailyBars) auto
  then have "sessionCount bar \<le> maxCount dailyBars"
    by (rule maxCount_upper)
  with True have "sessionCount bar = maxCount dailyBars"
    by simp
  with bar show ?thesis
    by (metis imageI)
next
  case False
  with maxCountLoop_attained [of dailyBars 0] show ?thesis
    by (simp add: maxCount_def)
qed

lemma maxCount_Max:
  assumes "dailyBars \<noteq> []"
  shows "maxCount dailyBars = Max (sessionCount ` set dailyBars)"
proof (rule sym, rule Max_eqI)
  show "finite (sessionCount ` set dailyBars)"
    by simp
  show "\<And>c. c \<in> sessionCount ` set dailyBars \<Longrightarrow> c \<le> maxCount dailyBars"
    by (auto intro: maxCount_upper)
  show "maxCount dailyBars \<in> sessionCount ` set dailyBars"
    using assms by (rule maxCount_attained)
qed

text \<open>
  C3.  For every bar of the chart, the intensity is the bar's count divided by the largest
  count of the window (whenever that is positive) and lies between 0 and 1; a bar with the
  largest count has intensity 1 unless that count is 0, and a bar with count 0 has
  intensity 0, so all intensities are 0 when all counts are.
\<close>

theorem intensity_normalised:
  assumes "i < length dailyBars"
  shows "intensities dailyBars ! i = intensity dailyBars (dailyBars ! i)
    \<and> maxCount dailyBars = Max (sessionCount ` set dailyBars)
    \<and> (0 < maxCount dailyBars \<longrightarrow>
         intensities dailyBars ! i
           = of_nat (sessionCount (dailyBars ! i)) / of_nat (Max (sessionCount ` set dailyBars)))
    \<and> 0 \<le> intensities dailyBars ! i \<and> intensities dailyBars ! i \<le> 1
    \<and> (sessionCount (dailyBars ! i) = Max (sessionCount ` set dailyBars)
          \<and> 0 < sessionCount (dailyBars ! i) \<longrightarrow> intensities dailyBars ! i = 1)
    \<and> (sessionCount (dailyBars ! i) = 0 \<longrightarrow> intensities dailyBars ! i = 0)"
proof -
  let ?bar = "dailyBars ! i"
  let ?M = "Max (sessionCount ` set dailyBars)"
  from assms have mem: "?bar \<in> set dailyBars" and ne: "dailyBars \<noteq> []"
    by auto
  have nth: "intensities dailyBars ! i = intensity dailyBars ?bar"
    using assms by (simp add: intensities_def)
  have mx: "maxCount dailyBars = ?M"
    using ne by (rule maxCount_Max)
  have le: "sessionCount ?bar \<le> maxCount dailyBars"
    using mem by (rule maxCount_upper)
  have quot: "0 < maxCount dailyBars \<longrightarrow>
      intensities dailyBars ! i = of_nat (sessionCount ?bar) / of_nat ?M"
    unfolding nth mx [symmetric] by (simp add: intensity_def)
  have lo: "0 \<le> intensities dailyBars ! i"
    unfolding nth by (simp add: intensity_def)
  have hi: "intensities dailyBars ! i \<le> 1"
    unfolding nth using le by (simp add: intensity_def)
  have one: "sessionCount ?bar = ?M \<and> 0 < sessionCount ?bar \<longrightarrow> intensities dailyBars ! i = 1"
    unfolding nth mx [symmetric] by (simp add: intensity_def)
  have zero: "sessionCount ?bar = 0 \<longrightarrow> intensities dailyBars ! i = 0"
    unfolding nth by (simp add: intensity_def)
  from nth mx quot lo hi one zero show ?thesis
    by (intro conjI)
qed

theorem intensity_normalised_witness:
  "intensities [\<lparr>date = ''2026-02-08'', sessionCount = 10\<rparr>,
                \<lparr>date = ''2026-02-09'', sessionCount = 0\<rparr>] ! 0 = 1
   \<and> intensities [\<lparr>date = ''2026-02-08'', sessionCount = 10\<rparr>,
                  \<lparr>date = ''2026-02-09'', sessionCount = 0\<rparr>] ! 1 = 0"
  using intensity_normalised [of 0 "[\<lparr>date = ''2026-02-08'', sessionCount = 10\<rparr>,
                \<lparr>date = ''2026-02-09'', sessionCount = 0\<rparr>]"]
    intensity_normalised [of 1 "[\<lparr>date = ''2026-02-08'', sessionCount = 10\<rparr>,
                \<lparr>date = ''2026-02-09'', sessionCount = 0\<rparr>]"]
  by simp

section \<open>Properties of the popover placement\<close>

text \<open>
  C7.  With a trigger rectangle, the popover is placed at \<open>right + 12\<close>, or at
  \<open>left - 480 - 12\<close> when \<open>right + 12 + 480\<close> would pass the right margin
  \<open>windowWidth - 20\<close>.  Its top is never above 20, its bottom \<open>top + maxHeight\<close> never
  passes the bottom margin \<open>windowHeight - 20\<close>; when the trigger's top would make it
  pass, the popover is moved up exactly onto that margin, and otherwise it keeps the
  trigger's top, or 20 when that is smaller.
\<close>

theorem ExpandedCard_placement:
  "\<exists>p. ExpandedCard (Some r) windowWidth windowHeight = Some p
     \<and> styleMaxHeight p = min 600 (windowHeight - 40)
     \<and> styleLeft p = (if rectRight r + 12 + 480 > windowWidth - 20
                       then rectLeft r - 480 - 12 else rectRight r + 12)
     \<and> 20 \<le> styleTop p
     \<and> styleTop p + styleMaxHeight p \<le> windowHeight - 20
     \<and> (rectTop r + styleMaxHeight p > windowHeight - 20 \<longrightarrow>
           styleTop p + styleMaxHeight p = windowHeight - 20)
     \<and> (rectTop r + styleMaxHeight p \<le> windowHeight - 20 \<longrightarrow>
           styleTop p = max 20 (rectTop r))"
  by (simp add: ExpandedCard_def Let_def gap_def cardWidth_def min_def max_def)

theorem ExpandedCard_placement_witness:
  "\<exists>p. ExpandedCard (Some \<lparr>rectLeft = 100, rectTop = 700, rectRight = 300\<rparr>) 1280 800 = Some p
     \<and> styleLeft p = 312 \<and> styleTop p = 180 \<and> styleMaxHeight p = 600"
  using ExpandedCard_placement [of "\<lparr>rectLeft = 100, rectTop = 700, rectRight = 300\<rparr>" 1280 800]
  by auto

section \<open>Properties of the card\<close>

lemma trim_empty_iff: "trim s = [] \<longleftrightarrow> (\<forall>c \<in> set s. isWhiteSpace c)"
proof
  assume "trim s = []"
  then have all: "\<forall>c \<in> set (dropWhile isWhiteSpace s). isWhiteSpace c"
    by (simp add: trim_def dropWhile_eq_Nil_conv)
  have "dropWhile isWhiteSpace s = []"
  proof (rule ccontr)
    assume ne: "dropWhile isWhiteSpace s \<noteq> []"
    then have "\<not> isWhiteSpace (hd (dropWhile isWhiteSpace s))"
      by (rule hd_dropWhile)
    moreover from ne have "hd (dropWhile isWhiteSpace s) \<in> set (dropWhile isWhiteSpace s)"
      by (rule hd_in_set)
    ultimately show False
      using all by blast
  qed
  then show "\<forall>c \<in> set s. isWhiteSpace c"
    by (simp add: dropWhile_eq_Nil_conv)
next
  assume "\<forall>c \<in> set s. isWhiteSpace c"
  then have "dropWhile isWhiteSpace s = []"
    by (simp add: dropWhile_eq_Nil_conv)
  then show "trim s = []"
    by (simp only: trim_def rev.simps dropWhile.simps)
qed

text \<open>
  C9.  Whatever the zoom level and the other props, \<open>InteractionCard\<close> renders nothing
  exactly for a message that has no tool use and whose extracted content is absent, empty
  or white space only.
\<close>

theorem InteractionCard_null:
  "(InteractionCard extract props triggerRect windowWidth windowHeight = None)
     = (toolUse (message props) = None
        \<and> (\<forall>c \<in> set (case extract (message props) of None \<Rightarrow> [] | Some t \<Rightarrow> t).
              isWhiteSpace c))"
  by (simp add: InteractionCard_def Let_def trim_empty_iff)

theorem InteractionCard_null_witness:
  "InteractionCard (\<lambda>m. Some [CHR '' '', CHR 0x0A, CHR 0x09])
     \<lparr>message = \<lparr>role = Some ''assistant'', messageType = ''assistant'', toolUse = None,
                  usage = Some \<lparr>input_tokens = 12, output_tokens = 0\<rparr>\<rparr>,
      zoomLevel = 2, isActive = True, isExpanded = False\<rparr> None 1280 800 = None"
  using InteractionCard_null [of "\<lambda>m. Some [CHR '' '', CHR 0x0A, CHR 0x09]"
     "\<lparr>message = \<lparr>role = Some ''assistant'', messageType = ''assistant'', toolUse = None,
                  usage = Some \<lparr>input_tokens = 12, output_tokens = 0\<rparr>\<rparr>,
      zoomLevel = 2, isActive = True, isExpanded = False\<rparr>" None 1280 800]
  by (simp add: isWhiteSpace_def)

section \<open>Properties of the navigation controller\<close>

text \<open>
  C6.  From an idle state with the board showing the view \<open>v\<close>, jumping to an event,
  letting the detail view mount, going back and restoring succeeds and ends idle with the
  board showing \<open>v\<close> again (the same scroll offset, zoom level and pinned sessions), with
  the saved snapshot and the target cleared.  The default view the board is re-mounted
  with, the event and the loaded events do not matter.
\<close>

theorem jumpAndReturn_restores:
  assumes "phase s = Idle" and "boardView s = Some v"
  shows "\<exists>s'. jumpAndReturn eventId loaded dflt s = Some s'
     \<and> phase s' = Idle
     \<and> boardView s' = Some v
     \<and> map_option scrollOffset (boardView s') = Some (scrollOffset v)
     \<and> map_option zoom (boardView s') = Some (zoom v)
     \<and> map_option pinnedSessions (boardView s') = Some (pinnedSessions v)
     \<and> savedBoardView s' = None
     \<and> targetEventId s' = None"
  using assms
  by (simp add: jumpAndReturn_def activateLink_def detailMounted_def backAction_def
      restoreBoard_def)

theorem jumpAndReturn_restores_witness:
  "\<exists>s'. jumpAndReturn ''msg-42'' [''msg-41'', ''msg-42'']
          \<lparr>scrollOffset = 0, zoom = 1, pinnedSessions = {}\<rparr>
          \<lparr>phase = Idle, targetEventId = None, savedBoardView = None,
           boardView = Some \<lparr>scrollOffset = 350, zoom = 2, pinnedSessions = {''s1''}\<rparr>,
           highlighted = None\<rparr> = Some s'
     \<and> boardView s' = Some \<lparr>scrollOffset = 350, zoom = 2, pinnedSessions = {''s1''}\<rparr>
     \<and> savedBoardView s' = None"
  using jumpAndReturn_restores [of
          "\<lparr>phase = Idle, targetEventId = None, savedBoardView = None,
           boardView = Some \<lparr>scrollOffset = 350, zoom = 2, pinnedSessions = {''s1''}\<rparr>,
           highlighted = None\<rparr>"
          "\<lparr>scrollOffset = 350, zoom = 2, pinnedSessions = {''s1''}\<rparr>"
          "''msg-42''" "[''msg-41'', ''msg-42'']"
          "\<lparr>scrollOffset = 0, zoom = 1, pinnedSessions = {}\<rparr>"]
  by auto

section \<open>Properties of the label placer\<close>

subsection \<open>The constants and the loop\<close>

lemma SLOT_WIDTH_value: "SLOT_WIDTH = 17"
  by (simp add: SLOT_WIDTH_def BAR_WIDTH_def BAR_GAP_def)

lemma ceiling_44_17: "\<lceil>(44 :: rat) / 17\<rceil> = 3"
  by (simp add: ceiling_eq_iff)

lemma minSlots_value: "minSlots = 3"
  by (simp add: minSlots_def SLOT_WIDTH_value MIN_LABEL_GAP_PX_def ceiling_44_17)

lemma floor_33_20: "\<lfloor>(33 :: rat) / 20\<rfloor> = 1"
  by (simp add: floor_eq_iff)

lemma relaxed_threshold_3: "max 2 (nat \<lfloor>(of_nat 3 :: rat) * (55 / 100)\<rfloor>) = 2"
  by (simp add: floor_33_20)

lemma lastThreshold_value: "lastThreshold = 2"
  unfolding lastThreshold_def minSlots_value by (rule relaxed_threshold_3)

lemma lastOr0_snoc: "lastOr0 (indices @ [i]) = i"
  by (simp add: lastOr0_def)

lemma scanLoop_greedyWalk:
  "scanLoop count i indices
     = indices @ greedyWalk minSlots (lastOr0 indices) [i..<count - 1]"
proof (induction count i indices rule: scanLoop.induct)
  case (1 count i indices)
  show ?case
  proof (cases "i < count - 1")
    case False
    then show ?thesis
      by (simp add: scanLoop.simps [of count i indices])
  next
    case True
    then have upt: "[i..<count - 1] = i # [i + 1..<count - 1]"
      by (simp add: upt_conv_Cons)
    show ?thesis
    proof (cases "int i - int (lastOr0 indices) \<ge> int minSlots")
      case incl: True
      have "scanLoop count i indices = scanLoop count (i + 1) (indices @ [i])"
        using True incl by (simp add: scanLoop.simps [of count i indices])
      also have "\<dots> = (indices @ [i]) @ greedyWalk minSlots i [i + 1..<count - 1]"
        using "1.IH" [OF True] incl by (simp add: lastOr0_snoc)
      also have "\<dots> = indices @ greedyWalk minSlots (lastOr0 indices) [i..<count - 1]"
        unfolding upt using incl by simp
      finally show ?thesis .
    next
      case skip: False
      have "scanLoop count i indices = scanLoop count (i + 1) indices"
        using True skip by (simp add: scanLoop.simps [of count i indices])
      also have "\<dots> = indices @ greedyWalk minSlots (lastOr0 indices) [i + 1..<count - 1]"
        using "1.IH" [OF True] skip by simp
      also have "\<dots> = indices @ greedyWalk minSlots (lastOr0 indices) [i..<count - 1]"
        unfolding upt using skip by simp
      finally show ?thesis .
    qed
  qed
qed

lemma selectLabelIndices_walk:
  "selectLabelIndices count =
     (if count = 0 then []
      else if count = 1 then [0]
      else let scan = 0 # greedyWalk 3 0 [1..<count - 1]
           in if int (count - 1) - int (last scan) \<ge> 2 then scan @ [count - 1] else scan)"
proof -
  have scan: "scanLoop count 1 [0] = 0 # greedyWalk 3 0 [1..<count - 1]"
    by (simp add: scanLoop_greedyWalk minSlots_value lastOr0_def)
  have lst: "lastOr0 (0 # xs) = last (0 # xs)" for xs
    by (simp add: lastOr0_def)
  show ?thesis
    unfolding selectLabelIndices_def scan lst lastThreshold_value Let_def
    by auto
qed

lemma spec_selectLabelIndices_walk:
  "spec_selectLabelIndices slotCount 17 44 =
     (if slotCount = 0 then []
      else if slotCount = 1 then [0]
      else let scan = 0 # greedyWalk 3 0 [1..<slotCount - 1]
           in if int (slotCount - 1) - int (last scan) \<ge> 2
              then scan @ [slotCount - 1] else scan)"
proof -
  have m: "nat \<lceil>(of_nat 44 :: rat) / of_nat 17\<rceil> = 3"
    by (simp add: ceiling_44_17)
  show ?thesis
    unfolding spec_selectLabelIndices_def Let_def m relaxed_threshold_3
    by simp
qed

subsection \<open>Spacing of the greedy walk\<close>

lemma greedyWalk_subset: "set (greedyWalk m l is) \<subseteq> set is"
  by (induction "is" arbitrary: l) auto

lemma greedyWalk_lower: "x \<in> set (greedyWalk m l is) \<Longrightarrow> l + m \<le> x"
proof (induction "is" arbitrary: l)
  case Nil
  then show ?case by simp
next
  case (Cons i "is")
  show ?case
  proof (cases "int i - int l \<ge> int m")
    case False
    with Cons.prems have "x \<in> set (greedyWalk m l is)"
      by simp
    then show ?thesis
      by (rule Cons.IH)
  next
    case True
    then have il: "l + m \<le> i"
      by linarith
    from True Cons.prems have "x = i \<or> x \<in> set (greedyWalk m i is)"
      by simp
    then show ?thesis
    proof
      assume "x = i"
      with il show ?thesis by simp
    next
      assume "x \<in> set (greedyWalk m i is)"
      then have "i + m \<le> x"
        by (rule Cons.IH)
      with il show ?thesis by linarith
    qed
  qed
qed

lemma greedyWalk_spaced: "sorted_wrt (\<lambda>a b. a + m \<le> b) (greedyWalk m l is)"
  by (induction "is" arbitrary: l) (auto dest: greedyWalk_lower)

lemma spaced_pair:
  "sorted_wrt (\<lambda>a b. a + m \<le> b) xs \<Longrightarrow> i \<in> set xs \<Longrightarrow> j \<in> set xs \<Longrightarrow> i \<noteq> j
     \<Longrightarrow> i + m \<le> j \<or> j + m \<le> (i::nat)"
  by (induction xs) auto

lemma spaced_le_last:
  "sorted_wrt (\<lambda>a b. a + m \<le> b) xs \<Longrightarrow> x \<in> set xs \<Longrightarrow> (x::nat) \<le> last xs"
proof (induction xs)
  case Nil
  then show ?case by simp
next
  case (Cons y ys)
  show ?case
  proof (cases "ys = []")
    case True
    with Cons.prems show ?thesis by simp
  next
    case False
    then have l: "last ys \<in> set ys"
      by simp
    show ?thesis
    proof (cases "x = y")
      case True
      from Cons.prems(1) l have "y + m \<le> last ys"
        by simp
      with True False show ?thesis
        by simp
    next
      case neq: False
      with Cons.prems have "x \<le> last ys"
        by (simp add: Cons.IH)
      with False show ?thesis
        by simp
    qed
  qed
qed

lemma scan_spaced: "sorted_wrt (\<lambda>a b. a + 3 \<le> b) (0 # greedyWalk 3 0 [1..<count - 1])"
  using greedyWalk_lower [of _ 3 0 "[1..<count - 1]"]
  by (simp add: greedyWalk_spaced)

lemma scan_below_final:
  assumes "2 \<le> count" and "x \<in> set (0 # greedyWalk 3 0 [1..<count - 1])"
  shows "x < count - 1"
proof -
  from assms(2) have "x = 0 \<or> x \<in> set [1..<count - 1]"
    using greedyWalk_subset [of 3 0 "[1..<count - 1]"] by auto
  with assms(1) show ?thesis
    by auto
qed

lemma selectLabelIndices_cases:
  assumes "2 \<le> count"
  shows "(selectLabelIndices count = 0 # greedyWalk 3 0 [1..<count - 1]
            \<and> count - 1 \<notin> set (selectLabelIndices count))
       \<or> (selectLabelIndices count = (0 # greedyWalk 3 0 [1..<count - 1]) @ [count - 1]
            \<and> last (0 # greedyWalk 3 0 [1..<count - 1]) + 2 \<le> count - 1)"
proof -
  let ?scan = "0 # greedyWalk 3 0 [1..<count - 1]"
  have notin: "count - 1 \<notin> set ?scan"
    using scan_below_final [OF assms, of "count - 1"] by blast
  show ?thesis
  proof (cases "int (count - 1) - int (last ?scan) \<ge> 2")
    case True
    then have "last ?scan + 2 \<le> count - 1"
      by linarith
    moreover from True assms have "selectLabelIndices count = ?scan @ [count - 1]"
      by (simp add: selectLabelIndices_walk [of count] Let_def)
    ultimately show ?thesis
      by blast
  next
    case False
    with assms have "selectLabelIndices count = ?scan"
      by (simp add: selectLabelIndices_walk [of count] Let_def)
    with notin show ?thesis
      by simp
  qed
qed

lemma selectLabelIndices_6: "selectLabelIndices 6 = [0, 3, 5]"
  by (simp add: selectLabelIndices_walk upt_rec)

text \<open>
  C1, as the specification states it, fails.  For six slots the labels are 0, 3 and 5: the
  labels 3 and 5 are 34 pixels apart, less than the 44 pixel gap, and they are not the pair
  of the first and the last label, 0 and 5.
\<close>

theorem selectLabelIndices_first_last_counterexample:
  "selectLabelIndices 6 = [0, 3, 5]
   \<and> 3 \<in> set (selectLabelIndices 6) \<and> 5 \<in> set (selectLabelIndices 6)
   \<and> \<bar>int 3 - int 5\<bar> * int SLOT_WIDTH < int MIN_LABEL_GAP_PX
   \<and> {3, 5} \<noteq> {0, 6 - 1 :: nat}"
  by (simp add: selectLabelIndices_6 SLOT_WIDTH_value MIN_LABEL_GAP_PX_def doubleton_eq_iff)

text \<open>
  C1, amended.  For every \<open>slotCount \<ge> 1\<close>, with a slot width of 17 and a label gap of 44
  pixels, \<open>selectLabelIndices\<close> includes index 0; two different returned indices whose
  distance in pixels is below the label gap always include the final index
  \<open>slotCount - 1\<close>; and any two different returned indices are at least two slots apart.
\<close>

theorem selectLabelIndices_spacing:
  assumes "1 \<le> slotCount"
  shows "SLOT_WIDTH = 17 \<and> MIN_LABEL_GAP_PX = 44
    \<and> 0 \<in> set (selectLabelIndices slotCount)
    \<and> (\<forall>i \<in> set (selectLabelIndices slotCount). \<forall>j \<in> set (selectLabelIndices slotCount).
          i \<noteq> j \<and> \<bar>int i - int j\<bar> * int SLOT_WIDTH < int MIN_LABEL_GAP_PX
            \<longrightarrow> i = slotCount - 1 \<or> j = slotCount - 1)
    \<and> (\<forall>i \<in> set (selectLabelIndices slotCount). \<forall>j \<in> set (selectLabelIndices slotCount).
          i \<noteq> j \<longrightarrow> 2 \<le> \<bar>int i - int j\<bar>)"
proof (cases "slotCount = 1")
  case True
  then have "selectLabelIndices slotCount = [0]"
    by (simp add: selectLabelIndices_def)
  then show ?thesis
    by (simp add: SLOT_WIDTH_value MIN_LABEL_GAP_PX_def)
next
  case False
  with assms have two: "2 \<le> slotCount"
    by simp
  let ?scan = "0 # greedyWalk 3 0 [1..<slotCount - 1]"
  let ?sel = "selectLabelIndices slotCount"
  have inner: "\<And>i j. i \<in> set ?scan \<Longrightarrow> j \<in> set ?scan \<Longrightarrow> i \<noteq> j \<Longrightarrow> 3 \<le> \<bar>int i - int j\<bar>"
  proof -
    fix i j
    assume "i \<in> set ?scan" "j \<in> set ?scan" "i \<noteq> j"
    with scan_spaced [of slotCount] have "i + 3 \<le> j \<or> j + 3 \<le> i"
      by (rule spaced_pair)
    then show "3 \<le> \<bar>int i - int j\<bar>"
      by linarith
  qed
  have final: "\<And>i. i \<in> set ?scan \<Longrightarrow> last ?scan + 2 \<le> slotCount - 1
      \<Longrightarrow> 2 \<le> \<bar>int i - int (slotCount - 1)\<bar>"
  proof -
    fix i
    assume i: "i \<in> set ?scan" and l: "last ?scan + 2 \<le> slotCount - 1"
    from scan_spaced [of slotCount] i have "i \<le> last ?scan"
      by (rule spaced_le_last)
    with l show "2 \<le> \<bar>int i - int (slotCount - 1)\<bar>"
      by linarith
  qed
  have mem: "\<And>i. i \<in> set ?sel \<Longrightarrow> i \<noteq> slotCount - 1 \<Longrightarrow> i \<in> set ?scan"
    using selectLabelIndices_cases [OF two] by auto
  have zero: "0 \<in> set ?sel"
    using selectLabelIndices_cases [OF two] by auto
  have close: "i = slotCount - 1 \<or> j = slotCount - 1"
    if "i \<in> set ?sel" "j \<in> set ?sel" "i \<noteq> j"
      "\<bar>int i - int j\<bar> * int SLOT_WIDTH < int MIN_LABEL_GAP_PX" for i j
  proof (rule ccontr)
    assume "\<not> (i = slotCount - 1 \<or> j = slotCount - 1)"
    with that mem have ij: "i \<in> set ?scan" "j \<in> set ?scan"
      by auto
    from ij that(3) have "3 \<le> \<bar>int i - int j\<bar>"
      by (rule inner)
    with that(4) show False
      by (simp add: SLOT_WIDTH_value MIN_LABEL_GAP_PX_def)
  qed
  have apart: "2 \<le> \<bar>int i - int j\<bar>" if hyp: "i \<in> set ?sel" "j \<in> set ?sel" "i \<noteq> j" for i j
  proof -
    consider "i \<noteq> slotCount - 1" "j \<noteq> slotCount - 1"
      | "i \<noteq> slotCount - 1" "j = slotCount - 1"
      | "i = slotCount - 1" "j \<noteq> slotCount - 1"
      using hyp(3) by blast
    then show ?thesis
    proof cases
      case 1
      with hyp mem have scan_ij: "i \<in> set ?scan" "j \<in> set ?scan"
        by auto
      from scan_ij hyp(3) have "3 \<le> \<bar>int i - int j\<bar>"
        by (rule inner)
      then show ?thesis
        by simp
    next
      case 2
      with hyp(1) mem have i: "i \<in> set ?scan"
        by auto
      from 2 hyp(2) selectLabelIndices_cases [OF two]
      have "last ?scan + 2 \<le> slotCount - 1"
        by auto
      with i have "2 \<le> \<bar>int i - int (slotCount - 1)\<bar>"
        by (rule final)
      with 2 show ?thesis
        by simp
    next
      case 3
      with hyp(2) mem have j: "j \<in> set ?scan"
        by auto
      from 3 hyp(1) selectLabelIndices_cases [OF two]
      have "last ?scan + 2 \<le> slotCount - 1"
        by auto
      with j have "2 \<le> \<bar>int j - int (slotCount - 1)\<bar>"
        by (rule final)
      with 3 show ?thesis
        by (simp add: abs_minus_commute)
    qed
  qed
  from zero close apart show ?thesis
    by (simp add: SLOT_WIDTH_value MIN_LABEL_GAP_PX_def)
qed

theorem selectLabelIndices_spacing_witness:
  "3 \<in> set (selectLabelIndices 6) \<and> 5 \<in> set (selectLabelIndices 6)
   \<and> \<bar>int 3 - int 5\<bar> * int SLOT_WIDTH < int MIN_LABEL_GAP_PX
   \<and> (5::nat) = 6 - 1 \<and> 0 \<in> set (selectLabelIndices 6)"
  using selectLabelIndices_spacing [of 6]
  by (simp add: selectLabelIndices_6)

text \<open>
  C2.  \<open>selectLabelIndices\<close> is the greedy walk of the specification at a slot width of
  17 and a label gap of 44 pixels, where the scan threshold \<open>ceil(44 / 17)\<close> is 3 and the
  threshold of the final label \<open>max(2, floor(3 * 0.55))\<close> is 2: the result is empty for
  no slot and \<open>[0]\<close> for one; otherwise index 0 is included, each index of
  \<open>1..slotCount-2\<close> is included iff it is at least 3 above the last included index, and
  the final index \<open>slotCount - 1\<close> is added iff it is at least 2 above the last included
  index.
\<close>

theorem selectLabelIndices_greedy:
  "selectLabelIndices slotCount = spec_selectLabelIndices slotCount SLOT_WIDTH MIN_LABEL_GAP_PX
   \<and> SLOT_WIDTH = 17 \<and> MIN_LABEL_GAP_PX = 44 \<and> minSlots = 3 \<and> lastThreshold = 2
   \<and> selectLabelIndices slotCount =
       (if slotCount = 0 then []
        else if slotCount = 1 then [0]
        else let scan = 0 # greedyWalk 3 0 [1..<slotCount - 1]
             in if int (slotCount - 1) - int (last scan) \<ge> 2
                then scan @ [slotCount - 1] else scan)"
proof -
  have "selectLabelIndices slotCount = spec_selectLabelIndices slotCount 17 44"
    unfolding spec_selectLabelIndices_walk by (rule selectLabelIndices_walk)
  moreover have "MIN_LABEL_GAP_PX = 44"
    by (rule MIN_LABEL_GAP_PX_def)
  ultimately show ?thesis
    using selectLabelIndices_walk [of slotCount]
    by (simp only: SLOT_WIDTH_value minSlots_value lastThreshold_value simp_thms)
qed

theorem selectLabelIndices_greedy_witness:
  "selectLabelIndices 8 = [0, 3, 6] \<and> spec_selectLabelIndices 8 17 44 = [0, 3, 6]"
proof -
  have "selectLabelIndices 8 = spec_selectLabelIndices 8 SLOT_WIDTH MIN_LABEL_GAP_PX"
    using selectLabelIndices_greedy [of 8] by (rule conjunct1)
  also have "\<dots> = spec_selectLabelIndices 8 17 44"
    by (simp add: SLOT_WIDTH_value MIN_LABEL_GAP_PX_def)
  also have "\<dots> = [0, 3, 6]"
    by (simp add: spec_selectLabelIndices_walk upt_rec)
  finally show ?thesis
    by (simp add: spec_selectLabelIndices_walk upt_rec)
qed

end
